theory Spec2Isabelle
  imports Main "HOL-Library.AList" "HOL-Library.Word"
begin

section \<open>The conversation adapter between genai contents and chat-completion messages\<close>

text \<open>
  The adapter (package \<^verbatim>\<open>openaiadapter\<close>) has three translations:
  \<^verbatim>\<open>toOpenAIMessages\<close> (conversation to wire messages), \<^verbatim>\<open>toOpenAITools\<close>
  (tool mapping to tool definitions) and \<^verbatim>\<open>toADKResponse\<close> (wire response to
  generic response). Go strings are byte strings, hence \<^typ>\<open>string\<close>; a \<^verbatim>\<open>[]byte\<close>
  converted with \<^verbatim>\<open>string(...)\<close> is the same list of bytes.
\<close>

subsection \<open>Errors\<close>

datatype error =
    errors_New string
  | UnsupportedTypeError
  | UnsupportedValueError
  | SyntaxError
  | NilPointerDereference

subsection \<open>Dynamic values and the JSON library\<close>

text \<open>
  The values a Go \<^verbatim>\<open>any\<close> holds. The first six are what \<^verbatim>\<open>json.Unmarshal\<close>
  stores into a \<^verbatim>\<open>map[string]any\<close>: the nil interface, a \<^verbatim>\<open>bool\<close>, a
  \<^verbatim>\<open>float64\<close> (its 64 bits), a \<^verbatim>\<open>string\<close>, a \<^verbatim>\<open>[]any\<close> and a
  \<^verbatim>\<open>map[string]any\<close> (\<open>None\<close> is the nil map, otherwise the entries, with
  distinct keys). \<open>GoStrings\<close> is a \<^verbatim>\<open>[]string\<close>, which the outbound translation
  builds. \<open>GoOther\<close> is any other value (an integer, a struct, a pointer, a
  channel, a function, a nil slice), identified by a name: the adapter hands such a
  value to the library and never looks into it.
\<close>

datatype any =
    GoNil
  | GoBool bool
  | GoFloat64 "64 word"
  | GoString string
  | GoSlice "any list"
  | GoMap "(string \<times> any) list option"
  | GoStrings "string list"
  | GoOther string

text \<open>A variable of type \<^verbatim>\<open>map[string]any\<close>: \<open>None\<close> is the nil map.\<close>

type_synonym gomap = "(string \<times> any) list option"

text \<open>The conversion of a map to \<^verbatim>\<open>any\<close> where it is passed to the encoder.\<close>

definition any_of_map :: "gomap \<Rightarrow> any" where
  "any_of_map m = GoMap m"

text \<open>\<^verbatim>\<open>val, ok := m[k]\<close>: a nil map has no entries.\<close>

definition map_lookup :: "gomap \<Rightarrow> string \<Rightarrow> any option" where
  "map_lookup m k = (case m of None \<Rightarrow> None | Some kvs \<Rightarrow> map_of kvs k)"

text \<open>
  The encoder \<^verbatim>\<open>json.Marshal\<close> and the decoder \<^verbatim>\<open>json.Unmarshal\<close> belong to
  the standard library. They are parameters of the functions that call them, named
  \<open>json_Marshal\<close> and \<open>json_Unmarshal\<close>: the encoder returns the bytes or an
  error, the decoder the decoded value or an error.
\<close>

type_synonym encoder = "any \<Rightarrow> error + string"

text \<open>\<^verbatim>\<open>b, _ := json.Marshal(v); string(b)\<close>: the error is dropped, the bytes are nil.\<close>

definition bytes_of :: "error + string \<Rightarrow> string" where
  "bytes_of r = (case r of Inl _ \<Rightarrow> [] | Inr b \<Rightarrow> b)"

subsection \<open>The genai content model\<close>

record Blob =
  MIMEType :: string
  Data :: string

record FunctionCall =
  Name :: string
  Args :: gomap

record FunctionResponse =
  Name :: string
  Response :: gomap

text \<open>
  A \<^verbatim>\<open>genai.Part\<close>: the fields the adapter reads. A pointer field that the code
  tests against nil is an option.
\<close>

record Part =
  Text :: string
  InlineData :: "Blob option"
  FunctionCall :: "FunctionCall option"
  FunctionResponse :: "FunctionResponse option"

record Content =
  Role :: string
  Parts :: "Part list"

text \<open>
  A \<^verbatim>\<open>genai.FunctionDeclaration\<close>; the schema pointer is held as the value it is
  stored as in the \<^verbatim>\<open>any\<close> field of the wire definition.
\<close>

record FunctionDeclaration =
  Name :: string
  Description :: string
  Parameters :: any

text \<open>A \<^verbatim>\<open>model.LLMResponse\<close>: the field the adapter sets.\<close>

record LLMResponse =
  Content :: Content

subsection \<open>The chat-completion wire model\<close>

definition ChatMessageRoleUser :: string where
  "ChatMessageRoleUser = ''user''"

definition ChatMessageRoleAssistant :: string where
  "ChatMessageRoleAssistant = ''assistant''"

definition ChatMessageRoleTool :: string where
  "ChatMessageRoleTool = ''tool''"

definition ToolTypeFunction :: string where
  "ToolTypeFunction = ''function''"

record FunctionDefinition =
  Name :: string
  Description :: string
  Parameters :: any

record Tool =
  Type :: string
  Function :: FunctionDefinition

record openai_FunctionCall =
  Name :: string
  Arguments :: string

record ToolCall =
  ID :: string
  Type :: string
  Function :: openai_FunctionCall

record ChatCompletionMessage =
  Role :: string
  Content :: string
  ToolCalls :: "ToolCall list"
  ToolCallID :: string

record ChatCompletionChoice =
  Message :: ChatCompletionMessage

record ChatCompletionResponse =
  Choices :: "ChatCompletionChoice list"

subsection \<open>Inbound translation: \<^verbatim>\<open>toOpenAIMessages\<close>\<close>

text \<open>The variables of the loops: the output so far and the two accumulators of a turn.\<close>

record conv_state =
  messages :: "ChatCompletionMessage list"
  textContent :: string
  toolCalls :: "ToolCall list"

text \<open>The body of the loop over the parts of one content.\<close>

definition part_step :: "encoder \<Rightarrow> string \<Rightarrow> conv_state \<Rightarrow> Part \<Rightarrow> conv_state" where
  "part_step json_Marshal role s p =
     (case FunctionResponse p of
        Some fr \<Rightarrow>
          (let s1 = (if textContent s \<noteq> [] \<or> length (toolCalls s) > 0
                     then \<lparr>messages = messages s @
                             [\<lparr>Role = role, Content = textContent s,
                               ToolCalls = (if length (toolCalls s) > 0 then toolCalls s else []),
                               ToolCallID = []\<rparr>],
                           textContent = [], toolCalls = []\<rparr>
                     else s);
               toolResponseID = ''call_'' @ FunctionResponse.Name fr;
               respJSON = bytes_of (json_Marshal (any_of_map (Response fr)))
           in s1\<lparr>messages := messages s1 @
                  [\<lparr>Role = ChatMessageRoleTool, Content = respJSON,
                    ToolCalls = [], ToolCallID = toolResponseID\<rparr>]\<rparr>)
      | None \<Rightarrow>
          (let s1 = (if Text p \<noteq> [] then s\<lparr>textContent := textContent s @ Text p\<rparr> else s);
               s2 = (case InlineData p of
                       Some b \<Rightarrow> s1\<lparr>textContent := textContent s1 @ Data b\<rparr>
                     | None \<Rightarrow> s1)
           in (case Part.FunctionCall p of
                 Some fc \<Rightarrow>
                   (let argsJSON = bytes_of (json_Marshal (any_of_map (Args fc)))
                    in s2\<lparr>toolCalls := toolCalls s2 @
                           [\<lparr>ID = ''call_'' @ FunctionCall.Name fc, Type = ToolTypeFunction,
                             Function = \<lparr>Name = FunctionCall.Name fc,
                                         Arguments = argsJSON\<rparr>\<rparr>]\<rparr>)
               | None \<Rightarrow> s2)))"

text \<open>The body of the loop over the contents: role, parts, final flush.\<close>

definition content_step ::
  "encoder \<Rightarrow> ChatCompletionMessage list \<Rightarrow> Content \<Rightarrow> ChatCompletionMessage list" where
  "content_step json_Marshal ms c =
     (let role = (if Content.Role c = ''model'' then ChatMessageRoleAssistant
                  else if Content.Role c = [] then ChatMessageRoleUser
                  else Content.Role c);
          s = foldl (part_step json_Marshal role) \<lparr>messages = ms, textContent = [], toolCalls = []\<rparr> (Parts c)
      in if textContent s \<noteq> [] \<or> length (toolCalls s) > 0
         then messages s @
                [\<lparr>Role = role, Content = textContent s,
                  ToolCalls = (if length (toolCalls s) > 0 then toolCalls s else []),
                  ToolCallID = []\<rparr>]
         else messages s)"

text \<open>The error result of the Go function is always nil, so the model returns the list.\<close>

definition toOpenAIMessages :: "encoder \<Rightarrow> Content list \<Rightarrow> ChatCompletionMessage list" where
  "toOpenAIMessages json_Marshal contents = foldl (content_step json_Marshal) [] contents"

subsection \<open>Tool catalog translation: \<^verbatim>\<open>toOpenAITools\<close>\<close>

text \<open>
  A value of the tool mapping: \<open>Declarer d\<close> is a value whose type has the method
  \<^verbatim>\<open>Declaration\<close>, \<open>d\<close> the pointer the method returns (\<open>None\<close> is nil);
  \<open>Other v\<close> is a value without the method.
\<close>

datatype tool_value =
    Declarer "FunctionDeclaration option"
  | Other any

text \<open>The struct \<^verbatim>\<open>ToolDef\<close> that the fallback decodes into.\<close>

record ToolDef =
  Name :: string
  Description :: string
  Parameters :: any

text \<open>
  The decoder decodes into a \<^verbatim>\<open>ToolDef\<close> here, and into a
  \<^verbatim>\<open>map[string]any\<close> in the outbound translation.

  The first half of the loop body fills \<^verbatim>\<open>name\<close>, \<^verbatim>\<open>description\<close> and
  \<^verbatim>\<open>parameters\<close>: \<open>Inl\<close> is the panic of reading through a nil declaration,
  \<open>Inr None\<close> the \<^verbatim>\<open>continue\<close>.
\<close>

definition tool_metadata ::
  "encoder \<Rightarrow> (string \<Rightarrow> error + ToolDef) \<Rightarrow> tool_value \<Rightarrow>
     error + (string \<times> string \<times> any) option" where
  "tool_metadata json_Marshal json_Unmarshal v =
     (case v of
        Declarer decl \<Rightarrow>
          (case decl of
             None \<Rightarrow> Inl NilPointerDereference
           | Some d \<Rightarrow>
               Inr (Some (FunctionDeclaration.Name d, FunctionDeclaration.Description d,
                          FunctionDeclaration.Parameters d)))
      | Other x \<Rightarrow>
          (case json_Marshal x of
             Inl err \<Rightarrow> Inr None
           | Inr jsonBytes \<Rightarrow>
               (case json_Unmarshal jsonBytes of
                  Inr td \<Rightarrow>
                    if ToolDef.Name td \<noteq> []
                    then Inr (Some (ToolDef.Name td, ToolDef.Description td, ToolDef.Parameters td))
                    else Inr (Some ([], [], GoNil))
                | Inl err \<Rightarrow> Inr (Some ([], [], GoNil)))))"

definition tool_step ::
  "encoder \<Rightarrow> (string \<Rightarrow> error + ToolDef) \<Rightarrow> Tool list \<Rightarrow> tool_value \<Rightarrow> error + Tool list" where
  "tool_step json_Marshal json_Unmarshal tools v =
     (case tool_metadata json_Marshal json_Unmarshal v of
        Inl err \<Rightarrow> Inl err
      | Inr None \<Rightarrow> Inr tools
      | Inr (Some (name, description, parameters)) \<Rightarrow>
          if name \<noteq> []
          then Inr (tools @
                 [\<lparr>Tool.Type = ToolTypeFunction,
                   Function = \<lparr>FunctionDefinition.Name = name, Description = description,
                               Parameters = parameters\<rparr>\<rparr>])
          else Inr tools)"

fun tools_loop ::
  "encoder \<Rightarrow> (string \<Rightarrow> error + ToolDef) \<Rightarrow> Tool list \<Rightarrow> tool_value list \<Rightarrow>
     error + Tool list" where
  "tools_loop json_Marshal json_Unmarshal tools [] = Inr tools"
| "tools_loop json_Marshal json_Unmarshal tools (v # vs) =
     (case tool_step json_Marshal json_Unmarshal tools v of
        Inl err \<Rightarrow> Inl err
      | Inr tools' \<Rightarrow> tools_loop json_Marshal json_Unmarshal tools' vs)"

text \<open>
  The mapping is the list of its entries in the order the \<^verbatim>\<open>range\<close> statement
  visits them (an order Go leaves open).
\<close>

definition toOpenAITools ::
  "encoder \<Rightarrow> (string \<Rightarrow> error + ToolDef) \<Rightarrow> (string \<times> tool_value) list \<Rightarrow>
     error + Tool list" where
  "toOpenAITools json_Marshal json_Unmarshal adkTools = tools_loop json_Marshal json_Unmarshal [] (map snd adkTools)"

subsection \<open>Outbound translation: \<^verbatim>\<open>toADKResponse\<close>\<close>

text \<open>
  The body of the loop over the tool calls of the first choice. A lookup in a nil
  map finds nothing, so the store into \<^verbatim>\<open>args\<close> is reached with a map that is not
  nil only.
\<close>

definition toolcall_step :: "(string \<Rightarrow> error + gomap) \<Rightarrow> Part list \<Rightarrow> ToolCall \<Rightarrow> Part list" where
  "toolcall_step json_Unmarshal parts tc =
     (case json_Unmarshal (Arguments (ToolCall.Function tc)) of
        Inl err \<Rightarrow> parts
      | Inr args \<Rightarrow>
          (let args' =
                 (case args of
                    None \<Rightarrow> args
                  | Some kvs \<Rightarrow>
                      (case map_of kvs ''artifact_names'' of
                         Some val \<Rightarrow>
                           (case val of
                              GoString strVal \<Rightarrow>
                                Some (AList.update ''artifact_names'' (GoStrings [strVal]) kvs)
                            | _ \<Rightarrow> args)
                       | None \<Rightarrow> args))
           in parts @
                [\<lparr>Text = [], InlineData = None,
                  FunctionCall =
                    Some \<lparr>FunctionCall.Name = openai_FunctionCall.Name (ToolCall.Function tc),
                          Args = args'\<rparr>,
                  FunctionResponse = None\<rparr>]))"

definition toADKResponse ::
  "(string \<Rightarrow> error + gomap) \<Rightarrow> ChatCompletionResponse \<Rightarrow> error + LLMResponse" where
  "toADKResponse json_Unmarshal resp =
     (if length (Choices resp) = 0 then Inl (errors_New ''no choices returned from ollama'')
      else
        (let choice = Choices resp ! 0;
             parts = (if ChatCompletionMessage.Content (Message choice) \<noteq> []
                      then [\<lparr>Text = ChatCompletionMessage.Content (Message choice),
                             InlineData = None, FunctionCall = None, FunctionResponse = None\<rparr>]
                      else []);
             parts' = foldl (toolcall_step json_Unmarshal) parts (ToolCalls (Message choice))
         in Inr \<lparr>LLMResponse.Content = \<lparr>Content.Role = ''model'', Parts = parts'\<rparr>\<rparr>))"

subsection \<open>Notions used in the statements\<close>

text \<open>
  The role a turn's messages carry (lines 185 to 190 of the source), the text and
  the tool calls one part adds to the accumulators (lines 232 to 248), the message
  a flush appends when an accumulator is not empty, and the message of one
  function response (lines 220 to 229).
\<close>

definition wire_role :: "string \<Rightarrow> string" where
  "wire_role r = (if r = ''model'' then ''assistant'' else if r = [] then ''user'' else r)"

definition part_text :: "Part \<Rightarrow> string" where
  "part_text p = Text p @ (case InlineData p of None \<Rightarrow> [] | Some b \<Rightarrow> Data b)"

definition part_calls :: "encoder \<Rightarrow> Part \<Rightarrow> ToolCall list" where
  "part_calls json_Marshal p =
     (case Part.FunctionCall p of
        None \<Rightarrow> []
      | Some fc \<Rightarrow>
          [\<lparr>ID = ''call_'' @ FunctionCall.Name fc, Type = ''function'',
            Function = \<lparr>openai_FunctionCall.Name = FunctionCall.Name fc,
                        Arguments = bytes_of (json_Marshal (any_of_map (Args fc)))\<rparr>\<rparr>])"

definition flush_message :: "string \<Rightarrow> string \<Rightarrow> ToolCall list \<Rightarrow> ChatCompletionMessage list" where
  "flush_message role t k =
     (if t \<noteq> [] \<or> k \<noteq> []
      then [\<lparr>Role = role, Content = t, ToolCalls = k, ToolCallID = []\<rparr>] else [])"

definition tool_message :: "encoder \<Rightarrow> FunctionResponse \<Rightarrow> ChatCompletionMessage" where
  "tool_message json_Marshal fr =
     \<lparr>Role = ''tool'', Content = bytes_of (json_Marshal (any_of_map (Response fr))),
      ToolCalls = [], ToolCallID = ''call_'' @ FunctionResponse.Name fr\<rparr>"

text \<open>
  The messages of one turn, written as a recursion over its parts with the two
  accumulators as arguments; \<open>foldl_part_step\<close> below shows that the loop of
  \<open>content_step\<close> appends exactly these.
\<close>

fun emit ::
  "encoder \<Rightarrow> string \<Rightarrow> string \<Rightarrow> ToolCall list \<Rightarrow> Part list \<Rightarrow> ChatCompletionMessage list" where
  "emit json_Marshal role t k [] = flush_message role t k"
| "emit json_Marshal role t k (p # ps) =
     (case FunctionResponse p of
        Some fr \<Rightarrow> flush_message role t k @ tool_message json_Marshal fr # emit json_Marshal role [] [] ps
      | None \<Rightarrow> emit json_Marshal role (t @ part_text p) (k @ part_calls json_Marshal p) ps)"

text \<open>
  The catalog entry of one tool value: the definition built from a declaration with
  a name, or from a value without the accessor that encodes and decodes to a name.
\<close>

definition catalog_entry ::
  "encoder \<Rightarrow> (string \<Rightarrow> error + ToolDef) \<Rightarrow> tool_value \<Rightarrow> Tool option" where
  "catalog_entry json_Marshal json_Unmarshal v =
     (case v of
        Declarer decl \<Rightarrow>
          (case decl of
             Some d \<Rightarrow>
               if FunctionDeclaration.Name d \<noteq> []
               then Some \<lparr>Tool.Type = ''function'',
                          Function = \<lparr>FunctionDefinition.Name = FunctionDeclaration.Name d,
                                      Description = FunctionDeclaration.Description d,
                                      Parameters = FunctionDeclaration.Parameters d\<rparr>\<rparr>
               else None
           | None \<Rightarrow> None)
      | Other x \<Rightarrow>
          (case json_Marshal x of
             Inr jsonBytes \<Rightarrow>
               (case json_Unmarshal jsonBytes of
                  Inr td \<Rightarrow>
                    if ToolDef.Name td \<noteq> []
                    then Some \<lparr>Tool.Type = ''function'',
                               Function = \<lparr>FunctionDefinition.Name = ToolDef.Name td,
                                           Description = ToolDef.Description td,
                                           Parameters = ToolDef.Parameters td\<rparr>\<rparr>
                    else None
                | Inl _ \<Rightarrow> None)
           | Inl _ \<Rightarrow> None))"

subsection \<open>Example values\<close>

text \<open>
  Parts, a turn and a wire response for the concrete instances below. The example
  encoder gives the result of \<^verbatim>\<open>json.Marshal\<close> on the values that occur in
  them: the JSON text of a map with its keys in order, an unsupported-value error
  for a map that holds a NaN (the bits of \<^verbatim>\<open>math.NaN()\<close>), an unsupported-type
  error for a channel; it is used on these values only. The two example decoders
  give the result of \<^verbatim>\<open>json.Unmarshal\<close> on the texts that occur in them and a
  syntax error elsewhere.
\<close>

definition text_part :: "string \<Rightarrow> Part" where
  "text_part s = \<lparr>Text = s, InlineData = None, FunctionCall = None, FunctionResponse = None\<rparr>"

definition data_part :: "string \<Rightarrow> Part" where
  "data_part b =
     \<lparr>Text = [], InlineData = Some \<lparr>MIMEType = ''text/plain'', Data = b\<rparr>,
      FunctionCall = None, FunctionResponse = None\<rparr>"

definition call_part :: "string \<Rightarrow> gomap \<Rightarrow> Part" where
  "call_part n a =
     \<lparr>Text = [], InlineData = None,
      FunctionCall = Some \<lparr>FunctionCall.Name = n, Args = a\<rparr>, FunctionResponse = None\<rparr>"

definition result_part :: "string \<Rightarrow> gomap \<Rightarrow> Part" where
  "result_part n r =
     \<lparr>Text = [], InlineData = None, FunctionCall = None,
      FunctionResponse = Some \<lparr>FunctionResponse.Name = n, Response = r\<rparr>\<rparr>"

definition search_call :: Part where
  "search_call = call_part ''search'' (Some [(''query'', GoString ''X'')])"

definition search_result :: Part where
  "search_result = result_part ''search'' (Some [(''results'', GoSlice [GoString ''Y''])])"

definition planning_turn :: Content where
  "planning_turn =
     \<lparr>Content.Role = ''model'',
      Parts = [text_part ''Looking'', data_part '' it'', text_part '' up'', search_call,
               search_result, text_part ''Done'']\<rparr>"

definition example_Marshal :: encoder where
  \<open>example_Marshal v =
     (if v = GoMap (Some [(''query'', GoString ''X'')]) then Inr ''{"query":"X"}''
      else if v = GoMap (Some [(''results'', GoSlice [GoString ''Y''])])
        then Inr ''{"results":["Y"]}''
      else if v = GoMap (Some [(''name'', GoString ''lookup''),
                               (''description'', GoString ''Find a file'')])
        then Inr ''{"description":"Find a file","name":"lookup"}''
      else if v = GoMap (Some [(''size'', GoString ''large'')]) then Inr ''{"size":"large"}''
      else if v = GoMap (Some [(''mean'', GoFloat64 0x7FF8000000000001)])
        then Inl UnsupportedValueError
      else Inl UnsupportedTypeError)\<close>

definition example_Unmarshal :: "string \<Rightarrow> error + gomap" where
  \<open>example_Unmarshal b =
     (if b = ''{"artifact_names":"a.txt","quiet":true}''
        then Inr (Some [(''artifact_names'', GoString ''a.txt''), (''quiet'', GoBool True)])
      else if b = ''{"query":"X"}'' then Inr (Some [(''query'', GoString ''X'')])
      else if b = ''null'' then Inr None
      else Inl SyntaxError)\<close>

definition example_ToolDef_Unmarshal :: "string \<Rightarrow> error + ToolDef" where
  \<open>example_ToolDef_Unmarshal b =
     (if b = ''{"description":"Find a file","name":"lookup"}''
        then Inr \<lparr>ToolDef.Name = ''lookup'', Description = ''Find a file'', Parameters = GoNil\<rparr>
      else if b = ''{"size":"large"}''
        then Inr \<lparr>ToolDef.Name = [], Description = [], Parameters = GoNil\<rparr>
      else Inl SyntaxError)\<close>

definition wire_call :: "string \<Rightarrow> string \<Rightarrow> ToolCall" where
  "wire_call n a =
     \<lparr>ID = ''call_'' @ n, Type = ''function'',
      Function = \<lparr>openai_FunctionCall.Name = n, Arguments = a\<rparr>\<rparr>"

definition example_response :: ChatCompletionResponse where
  \<open>example_response =
     \<lparr>Choices =
        [\<lparr>Message =
            \<lparr>Role = ''assistant'', Content = ''Loading'',
             ToolCalls = [wire_call ''search'' ''{"query":"X"}'',
                          wire_call ''broken'' ''{"query":'',
                          wire_call ''load_artifacts'' ''{"artifact_names":"a.txt","quiet":true}''],
             ToolCallID = []\<rparr>\<rparr>,
         \<lparr>Message = \<lparr>Role = ''assistant'', Content = ''Other'', ToolCalls = [],
                      ToolCallID = []\<rparr>\<rparr>]\<rparr>\<close>

lemmas ex_defs = text_part_def data_part_def call_part_def result_part_def search_call_def
  search_result_def planning_turn_def example_Marshal_def example_Unmarshal_def
  example_ToolDef_Unmarshal_def wire_call_def example_response_def

lemmas in_defs = toOpenAIMessages_def content_step_def part_step_def bytes_of_def
        any_of_map_def ChatMessageRoleAssistant_def ChatMessageRoleUser_def
        ChatMessageRoleTool_def ToolTypeFunction_def Let_def

section \<open>Inbound translation\<close>

text \<open>
  In the lemmas and theorems \<open>json_Marshal\<close> is a variable: they hold for every
  encoder. The closed instances use the example encoder.
\<close>

subsection \<open>The loops append the messages of each turn\<close>

lemma part_step_response:
  "FunctionResponse p = Some fr \<Longrightarrow>
   part_step json_Marshal role s p =
     \<lparr>messages = messages s @ flush_message role (textContent s) (toolCalls s) @ [tool_message json_Marshal fr],
      textContent = [], toolCalls = []\<rparr>"
  by (cases s) (simp add: part_step_def flush_message_def tool_message_def ChatMessageRoleTool_def Let_def)

lemma part_step_accumulate:
  "FunctionResponse p = None \<Longrightarrow>
   part_step json_Marshal role s p =
     \<lparr>messages = messages s, textContent = textContent s @ part_text p,
      toolCalls = toolCalls s @ part_calls json_Marshal p\<rparr>"
  by (cases s)
     (simp add: part_step_def part_text_def part_calls_def ToolTypeFunction_def Let_def
           split: option.splits)

lemma foldl_part_step:
  "messages (foldl (part_step json_Marshal role) s ps) @
     flush_message role (textContent (foldl (part_step json_Marshal role) s ps))
                        (toolCalls (foldl (part_step json_Marshal role) s ps))
   = messages s @ emit json_Marshal role (textContent s) (toolCalls s) ps"
proof (induction ps arbitrary: s)
  case Nil
  show ?case by simp
next
  case (Cons p ps)
  show ?case
  proof (cases "FunctionResponse p")
    case None
    then show ?thesis
      using Cons.IH [of "part_step json_Marshal role s p"] by (simp add: part_step_accumulate)
  next
    case (Some fr)
    then show ?thesis
      using Cons.IH [of "part_step json_Marshal role s p"] by (simp add: part_step_response)
  qed
qed

lemma content_step_emit:
  "content_step json_Marshal ms c = ms @ emit json_Marshal (wire_role (Content.Role c)) [] [] (Parts c)"
proof -
  let ?role = "wire_role (Content.Role c)"
  let ?s = "foldl (part_step json_Marshal ?role) \<lparr>messages = ms, textContent = [], toolCalls = []\<rparr> (Parts c)"
  have "content_step json_Marshal ms c = messages ?s @ flush_message ?role (textContent ?s) (toolCalls ?s)"
    by (simp add: content_step_def wire_role_def flush_message_def Let_def
          ChatMessageRoleAssistant_def ChatMessageRoleUser_def)
  then show ?thesis
    using foldl_part_step [of json_Marshal ?role "\<lparr>messages = ms, textContent = [], toolCalls = []\<rparr>" "Parts c"]
    by simp
qed

lemma foldl_content_step:
  "foldl (content_step json_Marshal) ms cs = ms @ concat (map (\<lambda>c. emit json_Marshal (wire_role (Content.Role c)) [] [] (Parts c)) cs)"
proof (induction cs arbitrary: ms)
  case Nil
  show ?case by simp
next
  case (Cons c cs)
  show ?case
    using Cons.IH [of "content_step json_Marshal ms c"] by (simp add: content_step_emit)
qed

lemma toOpenAIMessages_emit:
  "toOpenAIMessages json_Marshal cs = concat (map (\<lambda>c. emit json_Marshal (wire_role (Content.Role c)) [] [] (Parts c)) cs)"
  by (simp add: toOpenAIMessages_def foldl_content_step)

lemma toOpenAIMessages_append:
  "toOpenAIMessages json_Marshal (xs @ ys) = toOpenAIMessages json_Marshal xs @ toOpenAIMessages json_Marshal ys"
  by (simp add: toOpenAIMessages_emit)

lemma toOpenAIMessages_single:
  "toOpenAIMessages json_Marshal [c] = emit json_Marshal (wire_role (Content.Role c)) [] [] (Parts c)"
  by (simp add: toOpenAIMessages_emit)

lemma toOpenAIMessages_concat:
  "toOpenAIMessages json_Marshal cs = concat (map (\<lambda>c. toOpenAIMessages json_Marshal [c]) cs)"
  by (simp add: toOpenAIMessages_emit)

lemma toOpenAIMessages_Cons:
  "toOpenAIMessages json_Marshal (c # cs) = toOpenAIMessages json_Marshal [c] @ toOpenAIMessages json_Marshal cs"
  using toOpenAIMessages_append [of json_Marshal "[c]" cs] by simp

lemma toOpenAIMessages_mem:
  "c \<in> set cs \<Longrightarrow> m \<in> set (toOpenAIMessages json_Marshal [c]) \<Longrightarrow> m \<in> set (toOpenAIMessages json_Marshal cs)"
  by (auto simp: toOpenAIMessages_emit)

lemma toOpenAIMessages_memD:
  "m \<in> set (toOpenAIMessages json_Marshal cs) \<Longrightarrow> \<exists>c \<in> set cs. m \<in> set (toOpenAIMessages json_Marshal [c])"
  by (auto simp: toOpenAIMessages_emit)

lemma length_concat_le:
  "\<forall>x \<in> set xs. length (f x) \<le> 1 \<Longrightarrow> length (concat (map f xs)) \<le> length xs"
  by (induction xs) auto

subsection \<open>Splitting a turn at its function responses\<close>

lemma emit_no_response:
  "\<forall>p \<in> set ps. FunctionResponse p = None \<Longrightarrow>
   emit json_Marshal role t k ps =
     flush_message role (t @ concat (map part_text ps)) (k @ concat (map (part_calls json_Marshal) ps))"
  by (induction ps arbitrary: t k) simp_all

lemma emit_split:
  "\<forall>q \<in> set ps1. FunctionResponse q = None \<Longrightarrow> FunctionResponse p = Some fr \<Longrightarrow>
   emit json_Marshal role t k (ps1 @ p # ps2) =
     flush_message role (t @ concat (map part_text ps1)) (k @ concat (map (part_calls json_Marshal) ps1)) @
     tool_message json_Marshal fr # emit json_Marshal role [] [] ps2"
  by (induction ps1 arbitrary: t k) simp_all

lemma emit_split_any:
  "FunctionResponse p = Some fr \<Longrightarrow>
   emit json_Marshal role t k (ps1 @ p # ps2) = emit json_Marshal role t k ps1 @ tool_message json_Marshal fr # emit json_Marshal role [] [] ps2"
  by (induction ps1 arbitrary: t k) (simp_all split: option.splits)

lemma emit_after_response:
  "FunctionResponse p0 = Some fr0 \<Longrightarrow>
   emit json_Marshal role t k ((ps0 @ [p0]) @ rest) = emit json_Marshal role t k (ps0 @ [p0]) @ emit json_Marshal role [] [] rest"
  using emit_split_any [of p0 fr0 json_Marshal role t k ps0 rest]
    emit_split_any [of p0 fr0 json_Marshal role t k ps0 "[]"]
  by (simp add: flush_message_def)

lemma emit_prefix:
  "ps0 = [] \<or> (\<exists>ps p0. ps0 = ps @ [p0] \<and> FunctionResponse p0 \<noteq> None) \<Longrightarrow>
   emit json_Marshal role [] [] (ps0 @ rest) = emit json_Marshal role [] [] ps0 @ emit json_Marshal role [] [] rest"
proof (erule disjE)
  assume "ps0 = []"
  then show ?thesis by (simp add: flush_message_def)
next
  assume "\<exists>ps p0. ps0 = ps @ [p0] \<and> FunctionResponse p0 \<noteq> None"
  then obtain ps p0 fr0 where "ps0 = ps @ [p0]" "FunctionResponse p0 = Some fr0" by auto
  then show ?thesis using emit_after_response [of p0 fr0 json_Marshal role "[]" "[]" ps rest] by simp
qed

lemma emit_unit:
  assumes "\<forall>q \<in> set unit. FunctionResponse q = None"
    and "ps2 = [] \<or> (\<exists>p2 ps. ps2 = p2 # ps \<and> FunctionResponse p2 \<noteq> None)"
  shows "emit json_Marshal role [] [] (unit @ ps2) =
           flush_message role (concat (map part_text unit)) (concat (map (part_calls json_Marshal) unit)) @
           emit json_Marshal role [] [] ps2"
  using assms(2)
proof (rule disjE)
  assume "ps2 = []"
  then show ?thesis using emit_no_response [OF assms(1), of json_Marshal role "[]" "[]"]
    by (simp add: flush_message_def)
next
  assume "\<exists>p2 ps. ps2 = p2 # ps \<and> FunctionResponse p2 \<noteq> None"
  then obtain p2 ps fr2 where ps2: "ps2 = p2 # ps" "FunctionResponse p2 = Some fr2" by auto
  then show ?thesis
    using emit_split [OF assms(1) ps2(2), of json_Marshal role "[]" "[]" ps] by (simp add: flush_message_def)
qed

lemma toOpenAIMessages_turn_split:
  assumes "Parts c = ps0 @ rest"
    and "ps0 = [] \<or> (\<exists>ps p0. ps0 = ps @ [p0] \<and> FunctionResponse p0 \<noteq> None)"
  shows "toOpenAIMessages json_Marshal (cs1 @ c # cs2) =
           toOpenAIMessages json_Marshal (cs1 @ [c\<lparr>Parts := ps0\<rparr>]) @ toOpenAIMessages json_Marshal (c\<lparr>Parts := rest\<rparr> # cs2)"
proof -
  have "toOpenAIMessages json_Marshal [c] = toOpenAIMessages json_Marshal [c\<lparr>Parts := ps0\<rparr>] @ toOpenAIMessages json_Marshal [c\<lparr>Parts := rest\<rparr>]"
    using emit_prefix [OF assms(2), of json_Marshal "wire_role (Content.Role c)" rest] assms(1)
    by (simp add: toOpenAIMessages_single)
  then show ?thesis
    using toOpenAIMessages_append [of json_Marshal cs1 "c # cs2"] toOpenAIMessages_Cons [of json_Marshal c cs2]
      toOpenAIMessages_append [of json_Marshal cs1 "[c\<lparr>Parts := ps0\<rparr>]"]
      toOpenAIMessages_Cons [of json_Marshal "c\<lparr>Parts := rest\<rparr>" cs2]
    by simp
qed

lemma toOpenAIMessages_unit:
  assumes "Parts c = ps0 @ unit @ ps2"
    and "ps0 = [] \<or> (\<exists>ps p0. ps0 = ps @ [p0] \<and> FunctionResponse p0 \<noteq> None)"
    and "\<forall>q \<in> set unit. FunctionResponse q = None"
    and "ps2 = [] \<or> (\<exists>p2 ps. ps2 = p2 # ps \<and> FunctionResponse p2 \<noteq> None)"
  shows "toOpenAIMessages json_Marshal (cs1 @ c # cs2) =
           toOpenAIMessages json_Marshal (cs1 @ [c\<lparr>Parts := ps0\<rparr>]) @
           flush_message (wire_role (Content.Role c))
             (concat (map part_text unit)) (concat (map (part_calls json_Marshal) unit)) @
           toOpenAIMessages json_Marshal (c\<lparr>Parts := ps2\<rparr> # cs2)"
proof -
  have "toOpenAIMessages json_Marshal (c\<lparr>Parts := unit @ ps2\<rparr> # cs2) =
          flush_message (wire_role (Content.Role c))
             (concat (map part_text unit)) (concat (map (part_calls json_Marshal) unit)) @
          toOpenAIMessages json_Marshal (c\<lparr>Parts := ps2\<rparr> # cs2)"
    using emit_unit [OF assms(3,4), of json_Marshal "wire_role (Content.Role c)"]
      toOpenAIMessages_Cons [of json_Marshal "c\<lparr>Parts := unit @ ps2\<rparr>" cs2]
      toOpenAIMessages_Cons [of json_Marshal "c\<lparr>Parts := ps2\<rparr>" cs2]
    by (simp add: toOpenAIMessages_single)
  then show ?thesis
    using toOpenAIMessages_turn_split [OF assms(1,2), of json_Marshal cs1 cs2] by simp
qed

subsection \<open>The messages of a turn\<close>

lemma emit_message_kinds:
  "m \<in> set (emit json_Marshal role t k ps) \<Longrightarrow>
   (ChatCompletionMessage.Role m = role \<and> ToolCallID m = [] \<and> (Content m \<noteq> [] \<or> ToolCalls m \<noteq> []))
   \<or> (\<exists>p \<in> set ps. \<exists>fr. FunctionResponse p = Some fr \<and> m = tool_message json_Marshal fr)"
proof (induction ps arbitrary: t k)
  case Nil
  then show ?case by (auto simp: flush_message_def split: if_splits)
next
  case (Cons p ps)
  show ?case
  proof (cases "FunctionResponse p")
    case None
    then show ?thesis using Cons by auto
  next
    case (Some fr)
    then have "m \<in> set (flush_message role t k) \<or> m = tool_message json_Marshal fr \<or> m \<in> set (emit json_Marshal role [] [] ps)"
      using Cons.prems by auto
    then show ?thesis
      using Some Cons.IH [of "[]" "[]"] by (auto simp: flush_message_def split: if_splits)
  qed
qed

lemma emit_pending_call:
  "tc \<in> set k \<Longrightarrow>
   \<exists>m \<in> set (emit json_Marshal role t k ps). ChatCompletionMessage.Role m = role \<and> tc \<in> set (ToolCalls m)"
proof (induction ps arbitrary: t k)
  case Nil
  then show ?case by (auto simp: flush_message_def)
next
  case (Cons p ps)
  show ?case
  proof (cases "FunctionResponse p")
    case None
    then show ?thesis using Cons.IH [of "k @ part_calls json_Marshal p" "t @ part_text p"] Cons.prems by simp
  next
    case (Some fr)
    have "flush_message role t k =
            [\<lparr>Role = role, Content = t, ToolCalls = k, ToolCallID = []\<rparr>]"
      using Cons.prems by (auto simp: flush_message_def)
    then show ?thesis using Some Cons.prems by simp
  qed
qed

lemma emit_call_surfaces:
  "q \<in> set ps \<Longrightarrow> FunctionResponse q = None \<Longrightarrow> tc \<in> set (part_calls json_Marshal q) \<Longrightarrow>
   \<exists>m \<in> set (emit json_Marshal role t k ps). ChatCompletionMessage.Role m = role \<and> tc \<in> set (ToolCalls m)"
proof (induction ps arbitrary: t k)
  case Nil
  then show ?case by simp
next
  case (Cons p ps)
  show ?case
  proof (cases "q = p")
    case True
    then show ?thesis
      using Cons.prems emit_pending_call [of tc "k @ part_calls json_Marshal p" json_Marshal role "t @ part_text p" ps]
      by simp
  next
    case False
    then have q: "q \<in> set ps" using Cons.prems by simp
    show ?thesis
    proof (cases "FunctionResponse p")
      case None
      then show ?thesis using Cons.IH [OF q Cons.prems(2,3)] by simp
    next
      case (Some fr)
      then show ?thesis using Cons.IH [OF q Cons.prems(2,3), of "[]" "[]"] by auto
    qed
  qed
qed

subsection \<open>Correlation of tool results\<close>

text \<open>
  C1, as stated, asks for a preceding assistant message with the matching tool call
  for every conversation. A conversation whose only fragment is a function
  response yields the tool message alone: nothing precedes it.
\<close>

theorem tool_result_without_call:
  \<open>toOpenAIMessages example_Marshal
     [\<lparr>Content.Role = ''user'',
       Parts = [\<lparr>Text = [], InlineData = None, FunctionCall = None,
                 FunctionResponse = Some \<lparr>FunctionResponse.Name = ''search'',
                     Response = Some [(''results'', GoSlice [GoString ''Y''])]\<rparr>\<rparr>]\<rparr>]
   = [\<lparr>Role = ''tool'', Content = ''{"results":["Y"]}'', ToolCalls = [],
       ToolCallID = ''call_search''\<rparr>]\<close>
  by (simp add: toOpenAIMessages_def content_step_def part_step_def bytes_of_def any_of_map_def
      example_Marshal_def ChatMessageRoleUser_def ChatMessageRoleTool_def)

text \<open>
  C1 (amended). The message emitted for a function response named \<open>n\<close> is a
  tool message with the identifier \<^verbatim>\<open>call_\<close> followed by \<open>n\<close>, placed after the
  messages of everything before the response and before those of everything after
  it. When a part before the response, in an earlier turn or earlier in the same
  turn, holds a function call named \<open>n\<close> (and no function response), one of the
  messages before the tool message holds a tool call with that identifier, and
  carries the wire role of the turn of that part.
\<close>

theorem tool_result_correlation:
  assumes "Parts c = ps1 @ p # ps2" and "FunctionResponse p = Some fr"
  shows "toOpenAIMessages json_Marshal (cs1 @ c # cs2) =
           toOpenAIMessages json_Marshal (cs1 @ [c\<lparr>Parts := ps1\<rparr>]) @
           [\<lparr>Role = ''tool'', Content = bytes_of (json_Marshal (any_of_map (Response fr))),
             ToolCalls = [], ToolCallID = ''call_'' @ FunctionResponse.Name fr\<rparr>] @
           toOpenAIMessages json_Marshal (c\<lparr>Parts := ps2\<rparr> # cs2)
       \<and> (\<forall>c' q fc.
             ((c' \<in> set cs1 \<and> q \<in> set (Parts c')) \<or> (c' = c \<and> q \<in> set ps1)) \<and>
             FunctionResponse q = None \<and> Part.FunctionCall q = Some fc \<and>
             FunctionCall.Name fc = FunctionResponse.Name fr
             \<longrightarrow> (\<exists>m \<in> set (toOpenAIMessages json_Marshal (cs1 @ [c\<lparr>Parts := ps1\<rparr>])).
                    ChatCompletionMessage.Role m =
                      (if Content.Role c' = ''model'' then ''assistant''
                       else if Content.Role c' = [] then ''user'' else Content.Role c') \<and>
                    (\<exists>tc \<in> set (ToolCalls m). ID tc = ''call_'' @ FunctionResponse.Name fr)))"
proof (intro conjI allI impI)
  have "toOpenAIMessages json_Marshal [c] =
          toOpenAIMessages json_Marshal [c\<lparr>Parts := ps1\<rparr>] @ tool_message json_Marshal fr # toOpenAIMessages json_Marshal [c\<lparr>Parts := ps2\<rparr>]"
    using emit_split_any [OF assms(2), of json_Marshal "wire_role (Content.Role c)" "[]" "[]" ps1 ps2] assms(1)
    by (simp add: toOpenAIMessages_single)
  then show "toOpenAIMessages json_Marshal (cs1 @ c # cs2) =
           toOpenAIMessages json_Marshal (cs1 @ [c\<lparr>Parts := ps1\<rparr>]) @
           [\<lparr>Role = ''tool'', Content = bytes_of (json_Marshal (any_of_map (Response fr))),
             ToolCalls = [], ToolCallID = ''call_'' @ FunctionResponse.Name fr\<rparr>] @
           toOpenAIMessages json_Marshal (c\<lparr>Parts := ps2\<rparr> # cs2)"
    using toOpenAIMessages_append [of json_Marshal cs1 "c # cs2"] toOpenAIMessages_Cons [of json_Marshal c cs2]
      toOpenAIMessages_append [of json_Marshal cs1 "[c\<lparr>Parts := ps1\<rparr>]"]
      toOpenAIMessages_Cons [of json_Marshal "c\<lparr>Parts := ps2\<rparr>" cs2]
    by (simp add: tool_message_def)
next
  fix c' q fc
  assume h: "((c' \<in> set cs1 \<and> q \<in> set (Parts c')) \<or> (c' = c \<and> q \<in> set ps1)) \<and>
             FunctionResponse q = None \<and> Part.FunctionCall q = Some fc \<and>
             FunctionCall.Name fc = FunctionResponse.Name fr"
  let ?tc = "\<lparr>ID = ''call_'' @ FunctionCall.Name fc, Type = ''function'',
              Function = \<lparr>openai_FunctionCall.Name = FunctionCall.Name fc,
                          Arguments = bytes_of (json_Marshal (any_of_map (Args fc)))\<rparr>\<rparr>"
  define d where "d = (if c' \<in> set cs1 \<and> q \<in> set (Parts c') then c' else c\<lparr>Parts := ps1\<rparr>)"
  have tc: "?tc \<in> set (part_calls json_Marshal q)" using h by (simp add: part_calls_def)
  have nr: "FunctionResponse q = None" using h by simp
  have q: "q \<in> set (Parts d)" and r: "Content.Role d = Content.Role c'"
    and mem: "d \<in> set (cs1 @ [c\<lparr>Parts := ps1\<rparr>])"
    using h by (auto simp: d_def)
  obtain m where m: "m \<in> set (emit json_Marshal (wire_role (Content.Role d)) [] [] (Parts d))"
      "ChatCompletionMessage.Role m = wire_role (Content.Role d)" "?tc \<in> set (ToolCalls m)"
    using emit_call_surfaces [OF q nr tc, of "wire_role (Content.Role d)" "[]" "[]"] by blast
  have "m \<in> set (toOpenAIMessages json_Marshal (cs1 @ [c\<lparr>Parts := ps1\<rparr>]))"
    using m(1) toOpenAIMessages_mem [OF mem, of m json_Marshal] by (simp add: toOpenAIMessages_single)
  moreover have "ChatCompletionMessage.Role m =
                      (if Content.Role c' = ''model'' then ''assistant''
                       else if Content.Role c' = [] then ''user'' else Content.Role c')"
    using m(2) r by (simp add: wire_role_def)
  moreover have "\<exists>tc \<in> set (ToolCalls m). ID tc = ''call_'' @ FunctionResponse.Name fr"
    using m(3) h by (intro bexI [of _ ?tc]) simp_all
  ultimately show "\<exists>m \<in> set (toOpenAIMessages json_Marshal (cs1 @ [c\<lparr>Parts := ps1\<rparr>])).
                    ChatCompletionMessage.Role m =
                      (if Content.Role c' = ''model'' then ''assistant''
                       else if Content.Role c' = [] then ''user'' else Content.Role c') \<and>
                    (\<exists>tc \<in> set (ToolCalls m). ID tc = ''call_'' @ FunctionResponse.Name fr)"
    by blast
qed

theorem tool_result_correlation_witness:
  \<open>toOpenAIMessages example_Marshal [\<lparr>Content.Role = ''model'', Parts = [search_call]\<rparr>,
                      \<lparr>Content.Role = ''user'', Parts = [search_result]\<rparr>] =
     toOpenAIMessages example_Marshal [\<lparr>Content.Role = ''model'', Parts = [search_call]\<rparr>,
                       \<lparr>Content.Role = ''user'', Parts = []\<rparr>] @
     [\<lparr>Role = ''tool'', Content = ''{"results":["Y"]}'', ToolCalls = [],
       ToolCallID = ''call_search''\<rparr>] \<and>
   (\<exists>m \<in> set (toOpenAIMessages example_Marshal [\<lparr>Content.Role = ''model'', Parts = [search_call]\<rparr>,
                                  \<lparr>Content.Role = ''user'', Parts = []\<rparr>]).
      ChatCompletionMessage.Role m = ''assistant'' \<and>
      (\<exists>tc \<in> set (ToolCalls m). ID tc = ''call_search''))\<close>
  using tool_result_correlation
    [of "\<lparr>Content.Role = ''user'', Parts = [search_result]\<rparr>" "[]" search_result "[]"
        "\<lparr>FunctionResponse.Name = ''search'',
          Response = Some [(''results'', GoSlice [GoString ''Y''])]\<rparr>" example_Marshal
        "[\<lparr>Content.Role = ''model'', Parts = [search_call]\<rparr>]" "[]"]
  by (simp add: ex_defs in_defs)

subsection \<open>The flush at a function response\<close>




subsection \<open>Turns without function responses\<close>

text \<open>
  C3. When no part of a conversation holds a function response, the output is the
  concatenation of the outputs of its turns, each turn yields at most one message,
  none exactly when it accumulates no text and no tool call, and so the output is
  no longer than the conversation.
\<close>

theorem no_tool_result_one_message_per_turn:
  assumes "\<forall>c \<in> set cs. \<forall>p \<in> set (Parts c). FunctionResponse p = None"
  shows "toOpenAIMessages json_Marshal cs = concat (map (\<lambda>c. toOpenAIMessages json_Marshal [c]) cs) \<and>
         (\<forall>c \<in> set cs.
            length (toOpenAIMessages json_Marshal [c]) \<le> 1 \<and>
            (toOpenAIMessages json_Marshal [c] = [] \<longleftrightarrow>
               concat (map part_text (Parts c)) = [] \<and> concat (map (part_calls json_Marshal) (Parts c)) = [])) \<and>
         length (toOpenAIMessages json_Marshal cs) \<le> length cs"
proof -
  have one: "\<forall>c \<in> set cs.
            length (toOpenAIMessages json_Marshal [c]) \<le> 1 \<and>
            (toOpenAIMessages json_Marshal [c] = [] \<longleftrightarrow>
               concat (map part_text (Parts c)) = [] \<and> concat (map (part_calls json_Marshal) (Parts c)) = [])"
  proof
    fix c assume "c \<in> set cs"
    then have "\<forall>p \<in> set (Parts c). FunctionResponse p = None" using assms by simp
    then have "toOpenAIMessages json_Marshal [c] =
                 flush_message (wire_role (Content.Role c))
                   (concat (map part_text (Parts c))) (concat (map (part_calls json_Marshal) (Parts c)))"
      using emit_no_response [of "Parts c" json_Marshal "wire_role (Content.Role c)" "[]" "[]"]
      by (simp add: toOpenAIMessages_single)
    then show "length (toOpenAIMessages json_Marshal [c]) \<le> 1 \<and>
            (toOpenAIMessages json_Marshal [c] = [] \<longleftrightarrow>
               concat (map part_text (Parts c)) = [] \<and> concat (map (part_calls json_Marshal) (Parts c)) = [])"
      by (simp add: flush_message_def)
  qed
  have "length (concat (map (\<lambda>c. toOpenAIMessages json_Marshal [c]) cs)) \<le> length cs"
    using one length_concat_le [of cs "\<lambda>c. toOpenAIMessages json_Marshal [c]"] by blast
  then show ?thesis
    using one toOpenAIMessages_concat [of json_Marshal cs] by simp
qed

theorem no_tool_result_one_message_per_turn_witness:
  "toOpenAIMessages example_Marshal
     [\<lparr>Content.Role = ''user'', Parts = [text_part ''What is the capital of France?'']\<rparr>,
      \<lparr>Content.Role = ''model'', Parts = []\<rparr>]
   = [\<lparr>Role = ''user'', Content = ''What is the capital of France?'', ToolCalls = [],
       ToolCallID = []\<rparr>] \<and>
   toOpenAIMessages example_Marshal [\<lparr>Content.Role = ''model'', Parts = []\<rparr>] = []"
  using no_tool_result_one_message_per_turn
    [of "[\<lparr>Content.Role = ''user'', Parts = [text_part ''What is the capital of France?'']\<rparr>,
          \<lparr>Content.Role = ''model'', Parts = []\<rparr>]" example_Marshal]
  by (simp add: ex_defs in_defs part_text_def part_calls_def)

subsection \<open>The text of a flush unit\<close>

text \<open>
  C4. A flush unit is a maximal run \<open>unit\<close> of parts without a function response
  inside one turn: it starts the turn or follows a response, and it ends the turn or
  is followed by a response. It yields at most one message, between the messages of
  what precedes and what follows it, and the content of that message is the
  concatenation, in order, of the text of each part followed by the bytes of its
  inline data.
\<close>

theorem flush_unit_text:
  assumes "Parts c = ps0 @ unit @ ps2"
    and "ps0 = [] \<or> (\<exists>ps p0. ps0 = ps @ [p0] \<and> FunctionResponse p0 \<noteq> None)"
    and "\<forall>q \<in> set unit. FunctionResponse q = None"
    and "ps2 = [] \<or> (\<exists>p2 ps. ps2 = p2 # ps \<and> FunctionResponse p2 \<noteq> None)"
  shows "\<exists>ms. toOpenAIMessages json_Marshal (cs1 @ c # cs2) =
                toOpenAIMessages json_Marshal (cs1 @ [c\<lparr>Parts := ps0\<rparr>]) @ ms @
                toOpenAIMessages json_Marshal (c\<lparr>Parts := ps2\<rparr> # cs2) \<and>
              length ms \<le> 1 \<and>
              (ms = [] \<longleftrightarrow>
                 concat (map part_text unit) = [] \<and> concat (map (part_calls json_Marshal) unit) = []) \<and>
              (\<forall>m \<in> set ms.
                 ChatCompletionMessage.Content m =
                   concat (map (\<lambda>q. Text q @ (case InlineData q of None \<Rightarrow> [] | Some b \<Rightarrow> Data b))
                               unit))"
proof -
  let ?ms = "flush_message (wire_role (Content.Role c))
               (concat (map part_text unit)) (concat (map (part_calls json_Marshal) unit))"
  have "part_text = (\<lambda>q. Text q @ (case InlineData q of None \<Rightarrow> [] | Some b \<Rightarrow> Data b))"
    by (rule ext) (simp add: part_text_def)
  then have "\<forall>m \<in> set ?ms.
                 ChatCompletionMessage.Content m =
                   concat (map (\<lambda>q. Text q @ (case InlineData q of None \<Rightarrow> [] | Some b \<Rightarrow> Data b))
                               unit)"
    by (simp add: flush_message_def)
  moreover have "length ?ms \<le> 1" by (simp add: flush_message_def)
  moreover have "?ms = [] \<longleftrightarrow>
                 concat (map part_text unit) = [] \<and> concat (map (part_calls json_Marshal) unit) = []"
    by (simp add: flush_message_def)
  ultimately show ?thesis
    using toOpenAIMessages_unit [OF assms, of json_Marshal cs1 cs2] by blast
qed

theorem flush_unit_text_witness:
  \<open>toOpenAIMessages example_Marshal [planning_turn] =
     toOpenAIMessages example_Marshal [\<lparr>Content.Role = ''model'', Parts = []\<rparr>] @
     [\<lparr>Role = ''assistant'', Content = ''Looking it up'',
       ToolCalls = [\<lparr>ID = ''call_search'', Type = ''function'',
                     Function = \<lparr>openai_FunctionCall.Name = ''search'',
                                 Arguments = ''{"query":"X"}''\<rparr>\<rparr>],
       ToolCallID = []\<rparr>] @
     toOpenAIMessages example_Marshal
       [\<lparr>Content.Role = ''model'', Parts = [search_result, text_part ''Done'']\<rparr>]\<close>
  using flush_unit_text
    [of planning_turn "[]"
        "[text_part ''Looking'', data_part '' it'', text_part '' up'', search_call]"
        "[search_result, text_part ''Done'']" example_Marshal "[]" "[]"]
  by (simp add: ex_defs in_defs part_text_def part_calls_def)

subsection \<open>Roles\<close>

text \<open>
  C9. Every message of the output comes from one turn. It is either a message
  without a tool-call identifier, whose role is \<^verbatim>\<open>assistant\<close> for the turn role
  \<^verbatim>\<open>model\<close>, \<^verbatim>\<open>user\<close> for the empty role and the turn role itself otherwise, or
  the tool message of a function response of that turn.
\<close>

theorem turn_message_role:
  assumes "m \<in> set (toOpenAIMessages json_Marshal cs)"
  shows "\<exists>c \<in> set cs. m \<in> set (toOpenAIMessages json_Marshal [c]) \<and>
           ((ToolCallID m = [] \<and>
             ChatCompletionMessage.Role m =
               (if Content.Role c = ''model'' then ''assistant''
                else if Content.Role c = [] then ''user'' else Content.Role c))
            \<or> (\<exists>p \<in> set (Parts c). \<exists>fr. FunctionResponse p = Some fr \<and>
                  ChatCompletionMessage.Role m = ''tool'' \<and>
                  ToolCallID m = ''call_'' @ FunctionResponse.Name fr))"
proof -
  obtain c where c: "c \<in> set cs" "m \<in> set (toOpenAIMessages json_Marshal [c])"
    using toOpenAIMessages_memD [OF assms] by blast
  have "(ChatCompletionMessage.Role m = wire_role (Content.Role c) \<and> ToolCallID m = [] \<and>
          (ChatCompletionMessage.Content m \<noteq> [] \<or> ToolCalls m \<noteq> []))
        \<or> (\<exists>p \<in> set (Parts c). \<exists>fr. FunctionResponse p = Some fr \<and> m = tool_message json_Marshal fr)"
    using emit_message_kinds [of m json_Marshal "wire_role (Content.Role c)" "[]" "[]" "Parts c"] c(2)
    by (simp add: toOpenAIMessages_single)
  then show ?thesis
  proof (rule disjE)
    assume "ChatCompletionMessage.Role m = wire_role (Content.Role c) \<and> ToolCallID m = [] \<and>
          (ChatCompletionMessage.Content m \<noteq> [] \<or> ToolCalls m \<noteq> [])"
    then have "ToolCallID m = [] \<and>
             ChatCompletionMessage.Role m =
               (if Content.Role c = ''model'' then ''assistant''
                else if Content.Role c = [] then ''user'' else Content.Role c)"
      by (simp add: wire_role_def)
    then show ?thesis using c by blast
  next
    assume "\<exists>p \<in> set (Parts c). \<exists>fr. FunctionResponse p = Some fr \<and> m = tool_message json_Marshal fr"
    then obtain p fr where "p \<in> set (Parts c)" "FunctionResponse p = Some fr" "m = tool_message json_Marshal fr"
      by blast
    then have "\<exists>p \<in> set (Parts c). \<exists>fr. FunctionResponse p = Some fr \<and>
                  ChatCompletionMessage.Role m = ''tool'' \<and>
                  ToolCallID m = ''call_'' @ FunctionResponse.Name fr"
      by (intro bexI [of _ p] exI [of _ fr]) (simp_all add: tool_message_def)
    then show ?thesis using c by blast
  qed
qed

theorem turn_message_role_witness:
  "\<lparr>Role = ''user'', Content = ''Hi'', ToolCalls = [], ToolCallID = []\<rparr>
     \<in> set (toOpenAIMessages example_Marshal [\<lparr>Content.Role = [], Parts = [text_part ''Hi'']\<rparr>])"
  using turn_message_role
    [of "\<lparr>Role = ''user'', Content = ''Hi'', ToolCalls = [], ToolCallID = []\<rparr>"
        example_Marshal
        "[\<lparr>Content.Role = [], Parts = [text_part ''Hi'']\<rparr>]"]
  by (simp add: ex_defs in_defs)

text \<open>
  C10. A message of the output that is not the message of a function response (its
  identifier is empty, or its role is not \<^verbatim>\<open>tool\<close>) has text content or tool
  calls.
\<close>

theorem turn_message_nonempty:
  assumes "m \<in> set (toOpenAIMessages json_Marshal cs)"
    and "ToolCallID m = [] \<or> ChatCompletionMessage.Role m \<noteq> ''tool''"
  shows "ChatCompletionMessage.Content m \<noteq> [] \<or> ToolCalls m \<noteq> []"
proof -
  obtain c where c: "c \<in> set cs" "m \<in> set (toOpenAIMessages json_Marshal [c])"
    using toOpenAIMessages_memD [OF assms(1)] by blast
  have "(ChatCompletionMessage.Role m = wire_role (Content.Role c) \<and> ToolCallID m = [] \<and>
          (ChatCompletionMessage.Content m \<noteq> [] \<or> ToolCalls m \<noteq> []))
        \<or> (\<exists>p \<in> set (Parts c). \<exists>fr. FunctionResponse p = Some fr \<and> m = tool_message json_Marshal fr)"
    using emit_message_kinds [of m json_Marshal "wire_role (Content.Role c)" "[]" "[]" "Parts c"] c(2)
    by (simp add: toOpenAIMessages_single)
  then show ?thesis using assms(2) by (auto simp: tool_message_def)
qed

theorem turn_message_nonempty_witness:
  "\<lparr>Role = ''assistant'', Content = ''Hi'', ToolCalls = [], ToolCallID = []\<rparr>
     \<in> set (toOpenAIMessages example_Marshal [\<lparr>Content.Role = ''model'', Parts = [text_part ''Hi'']\<rparr>]) \<and>
   ChatCompletionMessage.Content
     \<lparr>Role = ''assistant'', Content = ''Hi'', ToolCalls = [], ToolCallID = []\<rparr> = ''Hi''"
  using turn_message_nonempty
    [of "\<lparr>Role = ''assistant'', Content = ''Hi'', ToolCalls = [], ToolCallID = []\<rparr>"
        example_Marshal
        "[\<lparr>Content.Role = ''model'', Parts = [text_part ''Hi'']\<rparr>]"]
  by (simp add: ex_defs in_defs)

section \<open>Outbound translation\<close>

lemma toolcall_step_append:
  "toolcall_step u parts tc = parts @ toolcall_step u [] tc"
  by (simp add: toolcall_step_def Let_def split: sum.splits)

lemma toolcall_step_failed:
  "u (Arguments (ToolCall.Function tc)) = Inl e \<Longrightarrow> toolcall_step u [] tc = []"
  by (simp add: toolcall_step_def)

lemma toolcall_step_decoded:
  assumes "u (Arguments (ToolCall.Function tc)) = Inr args"
  shows "\<exists>fc. toolcall_step u [] tc =
                [\<lparr>Text = [], InlineData = None, FunctionCall = Some fc, FunctionResponse = None\<rparr>] \<and>
              FunctionCall.Name fc = openai_FunctionCall.Name (ToolCall.Function tc) \<and>
              (\<forall>k. k \<noteq> ''artifact_names'' \<longrightarrow> map_lookup (Args fc) k = map_lookup args k) \<and>
              (case map_lookup args ''artifact_names'' of
                 Some (GoString s) \<Rightarrow> map_lookup (Args fc) ''artifact_names'' = Some (GoStrings [s])
               | _ \<Rightarrow> Args fc = args)"
  using assms
  by (auto simp: toolcall_step_def map_lookup_def Let_def update_conv' split: option.splits any.splits)

lemma foldl_toolcall_step:
  "foldl (toolcall_step u) parts tcs = parts @ concat (map (toolcall_step u []) tcs)"
proof (induction tcs arbitrary: parts)
  case Nil
  show ?case by simp
next
  case (Cons tc tcs)
  show ?case
    using Cons.IH [of "toolcall_step u parts tc"] toolcall_step_append [of u parts tc] by simp
qed

lemma toADKResponse_parts:
  "Choices resp = choice # rest \<Longrightarrow>
   toADKResponse u resp =
     Inr \<lparr>LLMResponse.Content = \<lparr>Content.Role = ''model'',
            Parts = (if ChatCompletionMessage.Content (Message choice) \<noteq> []
                     then [\<lparr>Text = ChatCompletionMessage.Content (Message choice),
                            InlineData = None, FunctionCall = None, FunctionResponse = None\<rparr>]
                     else []) @
                    concat (map (toolcall_step u []) (ToolCalls (Message choice)))\<rparr>\<rparr>"
  by (simp add: toADKResponse_def Let_def foldl_toolcall_step)

lemma decoded_entries:
  "\<exists>ps. concat (map (toolcall_step u []) tcs) = ps \<and>
     map (\<lambda>p. map_option FunctionCall.Name (Part.FunctionCall p)) ps =
       map (\<lambda>tc. Some (openai_FunctionCall.Name (ToolCall.Function tc)))
           (filter (\<lambda>tc. \<not> isl (u (Arguments (ToolCall.Function tc)))) tcs) \<and>
     (\<forall>p \<in> set ps. Text p = [] \<and> InlineData p = None \<and> FunctionResponse p = None)"
proof (induction tcs)
  case Nil
  show ?case by simp
next
  case (Cons tc tcs)
  show ?case
  proof (cases "u (Arguments (ToolCall.Function tc))")
    case (Inl e)
    then show ?thesis using Cons.IH by (simp add: toolcall_step_failed)
  next
    case (Inr args)
    then show ?thesis using Cons.IH toolcall_step_decoded [of u tc args] by auto
  qed
qed

text \<open>
  C5. A response without choices fails with the error
  \<^verbatim>\<open>no choices returned from ollama\<close>, so that no response and no part is
  returned. A response with choices succeeds with a model turn made from the
  message of the first choice: the text part of its content, when that is not
  empty, followed by what the loop body adds for each of its tool calls in order.
  No other choice is read: the result is that of the response holding the first
  choice alone.
\<close>

theorem empty_response:
  "(Choices resp = [] \<longrightarrow>
      toADKResponse u resp = Inl (errors_New ''no choices returned from ollama'')) \<and>
   (\<forall>choice rest. Choices resp = choice # rest \<longrightarrow>
      toADKResponse u resp =
        Inr \<lparr>LLMResponse.Content = \<lparr>Content.Role = ''model'',
               Parts = (if ChatCompletionMessage.Content (Message choice) \<noteq> []
                        then [\<lparr>Text = ChatCompletionMessage.Content (Message choice),
                               InlineData = None, FunctionCall = None,
                               FunctionResponse = None\<rparr>]
                        else []) @
                       concat (map (toolcall_step u []) (ToolCalls (Message choice)))\<rparr>\<rparr> \<and>
      toADKResponse u resp = toADKResponse u (resp\<lparr>Choices := [choice]\<rparr>))"
proof (intro conjI allI impI)
  assume "Choices resp = []"
  then show "toADKResponse u resp = Inl (errors_New ''no choices returned from ollama'')"
    by (simp add: toADKResponse_def)
next
  fix choice rest
  assume h: "Choices resp = choice # rest"
  show "toADKResponse u resp =
        Inr \<lparr>LLMResponse.Content = \<lparr>Content.Role = ''model'',
               Parts = (if ChatCompletionMessage.Content (Message choice) \<noteq> []
                        then [\<lparr>Text = ChatCompletionMessage.Content (Message choice),
                               InlineData = None, FunctionCall = None,
                               FunctionResponse = None\<rparr>]
                        else []) @
                       concat (map (toolcall_step u []) (ToolCalls (Message choice)))\<rparr>\<rparr>"
    using h by (rule toADKResponse_parts)
  show "toADKResponse u resp = toADKResponse u (resp\<lparr>Choices := [choice]\<rparr>)"
    using toADKResponse_parts [OF h, of u]
      toADKResponse_parts [of "resp\<lparr>Choices := [choice]\<rparr>" choice "[]" u] by simp
qed

theorem empty_response_witness:
  "toADKResponse example_Unmarshal \<lparr>Choices = []\<rparr> =
     Inl (errors_New ''no choices returned from ollama'') \<and>
   toADKResponse example_Unmarshal example_response =
     Inr \<lparr>LLMResponse.Content = \<lparr>Content.Role = ''model'',
            Parts = [text_part ''Loading'',
                     call_part ''search'' (Some [(''query'', GoString ''X'')]),
                     call_part ''load_artifacts''
                       (Some [(''artifact_names'', GoStrings [''a.txt'']),
                              (''quiet'', GoBool True)])]\<rparr>\<rparr> \<and>
   toADKResponse example_Unmarshal example_response =
     toADKResponse example_Unmarshal
       (example_response\<lparr>Choices := [hd (Choices example_response)]\<rparr>)"
  using empty_response [of "\<lparr>Choices = []\<rparr>" example_Unmarshal]
    empty_response [of example_response example_Unmarshal]
  by (simp add: ex_defs toADKResponse_def toolcall_step_def)

text \<open>
  C6. For a response with a first choice the translation succeeds whatever the
  decoder returns on the argument texts. Its parts are the text part, when the
  content is not empty, followed by one function-call part for each tool call whose
  arguments decode, in the order received: the names of these parts are the names
  of the tool calls that decode. A tool call whose arguments do not decode leaves
  no part.
\<close>

theorem undecodable_tool_call_skipped:
  assumes "Choices resp = choice # rest"
  shows "\<exists>ps. toADKResponse u resp =
            Inr \<lparr>LLMResponse.Content = \<lparr>Content.Role = ''model'',
                   Parts = (if ChatCompletionMessage.Content (Message choice) \<noteq> []
                            then [\<lparr>Text = ChatCompletionMessage.Content (Message choice),
                                   InlineData = None, FunctionCall = None,
                                   FunctionResponse = None\<rparr>]
                            else []) @ ps\<rparr>\<rparr> \<and>
          map (\<lambda>p. map_option FunctionCall.Name (Part.FunctionCall p)) ps =
            map (\<lambda>tc. Some (openai_FunctionCall.Name (ToolCall.Function tc)))
                (filter (\<lambda>tc. \<not> isl (u (Arguments (ToolCall.Function tc))))
                        (ToolCalls (Message choice))) \<and>
          (\<forall>p \<in> set ps. Text p = [] \<and> InlineData p = None \<and> FunctionResponse p = None)"
  using toADKResponse_parts [OF assms, of u] decoded_entries [of u "ToolCalls (Message choice)"]
  by simp

theorem undecodable_tool_call_skipped_witness:
  "toADKResponse example_Unmarshal example_response =
     Inr \<lparr>LLMResponse.Content = \<lparr>Content.Role = ''model'',
            Parts = [text_part ''Loading'',
                     call_part ''search'' (Some [(''query'', GoString ''X'')]),
                     call_part ''load_artifacts''
                       (Some [(''artifact_names'', GoStrings [''a.txt'']), (''quiet'', GoBool True)])]\<rparr>\<rparr>"
  using undecodable_tool_call_skipped
    [of example_response "hd (Choices example_response)" "tl (Choices example_response)"
        example_Unmarshal]
  by (simp add: ex_defs toADKResponse_def toolcall_step_def)

text \<open>
  C7. For a tool call \<open>tc\<close> of the first choice whose arguments decode to
  \<open>args\<close>, the part emitted for it (right after the parts of the tool calls
  before it) holds the name of \<open>tc\<close> and arguments that agree with \<open>args\<close> on
  every key other than \<^verbatim>\<open>artifact_names\<close>; under that key a string \<open>s\<close> has
  become the one-element list of \<open>s\<close>, and in every other case the arguments are
  \<open>args\<close> unchanged.
\<close>

theorem artifact_names_repair:
  assumes "Choices resp = choice # rest"
    and "ToolCalls (Message choice) = tcs1 @ tc # tcs2"
    and "u (Arguments (ToolCall.Function tc)) = Inr args"
  shows "\<exists>ps1 fc ps2.
           toADKResponse u (resp\<lparr>Choices := [choice\<lparr>Message := (Message choice)\<lparr>ToolCalls := tcs1\<rparr>\<rparr>]\<rparr>) =
             Inr \<lparr>LLMResponse.Content = \<lparr>Content.Role = ''model'', Parts = ps1\<rparr>\<rparr> \<and>
           toADKResponse u resp =
             Inr \<lparr>LLMResponse.Content = \<lparr>Content.Role = ''model'',
                    Parts = ps1 @ \<lparr>Text = [], InlineData = None, FunctionCall = Some fc,
                                   FunctionResponse = None\<rparr> # ps2\<rparr>\<rparr> \<and>
           FunctionCall.Name fc = openai_FunctionCall.Name (ToolCall.Function tc) \<and>
           (\<forall>k. k \<noteq> ''artifact_names'' \<longrightarrow> map_lookup (Args fc) k = map_lookup args k) \<and>
           (case map_lookup args ''artifact_names'' of
              Some (GoString s) \<Rightarrow> map_lookup (Args fc) ''artifact_names'' = Some (GoStrings [s])
            | _ \<Rightarrow> Args fc = args)"
proof -
  obtain fc where fc: "toolcall_step u [] tc =
                [\<lparr>Text = [], InlineData = None, FunctionCall = Some fc, FunctionResponse = None\<rparr>]"
     "FunctionCall.Name fc = openai_FunctionCall.Name (ToolCall.Function tc)"
     "\<forall>k. k \<noteq> ''artifact_names'' \<longrightarrow> map_lookup (Args fc) k = map_lookup args k"
     "case map_lookup args ''artifact_names'' of
                 Some (GoString s) \<Rightarrow> map_lookup (Args fc) ''artifact_names'' = Some (GoStrings [s])
               | _ \<Rightarrow> Args fc = args"
    using toolcall_step_decoded [of u tc args] assms(3) by blast
  let ?text = "if ChatCompletionMessage.Content (Message choice) \<noteq> []
                     then [\<lparr>Text = ChatCompletionMessage.Content (Message choice),
                            InlineData = None, FunctionCall = None, FunctionResponse = None\<rparr>]
                     else []"
  let ?ps1 = "?text @ concat (map (toolcall_step u []) tcs1)"
  let ?ps2 = "concat (map (toolcall_step u []) tcs2)"
  have a: "toADKResponse u (resp\<lparr>Choices := [choice\<lparr>Message := (Message choice)\<lparr>ToolCalls := tcs1\<rparr>\<rparr>]\<rparr>) =
             Inr \<lparr>LLMResponse.Content = \<lparr>Content.Role = ''model'', Parts = ?ps1\<rparr>\<rparr>"
    using toADKResponse_parts [of "resp\<lparr>Choices := [choice\<lparr>Message := (Message choice)\<lparr>ToolCalls := tcs1\<rparr>\<rparr>]\<rparr>"
        "choice\<lparr>Message := (Message choice)\<lparr>ToolCalls := tcs1\<rparr>\<rparr>" "[]" u]
    by simp
  have b: "toADKResponse u resp =
             Inr \<lparr>LLMResponse.Content = \<lparr>Content.Role = ''model'',
                    Parts = ?ps1 @ \<lparr>Text = [], InlineData = None, FunctionCall = Some fc,
                                   FunctionResponse = None\<rparr> # ?ps2\<rparr>\<rparr>"
    using toADKResponse_parts [OF assms(1), of u] assms(2) fc(1) by simp
  show ?thesis
    using a b fc(2,3,4) by blast
qed

theorem artifact_names_repair_witness:
  "toADKResponse example_Unmarshal example_response =
     Inr \<lparr>LLMResponse.Content = \<lparr>Content.Role = ''model'',
            Parts = [text_part ''Loading'',
                     call_part ''search'' (Some [(''query'', GoString ''X'')]),
                     call_part ''load_artifacts''
                       (Some [(''artifact_names'', GoStrings [''a.txt'']), (''quiet'', GoBool True)])]\<rparr>\<rparr> \<and>
   map_lookup (Some [(''artifact_names'', GoStrings [''a.txt'']), (''quiet'', GoBool True)])
     ''artifact_names'' = Some (GoStrings [''a.txt''])"
  using artifact_names_repair
    [of example_response "hd (Choices example_response)" "tl (Choices example_response)"
        "[wire_call ''search'' ''{\"query\":\"X\"}'', wire_call ''broken'' ''{\"query\":'']"
        "wire_call ''load_artifacts'' ''{\"artifact_names\":\"a.txt\",\"quiet\":true}''" "[]"
        example_Unmarshal "Some [(''artifact_names'', GoString ''a.txt''), (''quiet'', GoBool True)]"]
  by (simp add: ex_defs toADKResponse_def toolcall_step_def map_lookup_def)

section \<open>Tool catalog translation\<close>

lemma tool_step_catalog_entry:
  "v \<noteq> Declarer None \<Longrightarrow>
   tool_step json_Marshal u tools v =
     Inr (tools @ (case catalog_entry json_Marshal u v of None \<Rightarrow> [] | Some t \<Rightarrow> [t]))"
  by (auto simp: tool_step_def tool_metadata_def catalog_entry_def ToolTypeFunction_def
           split: tool_value.splits option.splits sum.splits)

lemma tools_loop_catalog:
  "\<forall>v \<in> set vs. v \<noteq> Declarer None \<Longrightarrow>
   tools_loop json_Marshal u tools vs = Inr (tools @ List.map_filter (catalog_entry json_Marshal u) vs)"
proof (induction vs arbitrary: tools)
  case Nil
  show ?case by simp
next
  case (Cons v vs)
  then show ?case
    by (simp add: tool_step_catalog_entry split: option.splits)
qed

lemma tools_loop_nil_declaration:
  "Declarer None \<in> set vs \<Longrightarrow> tools_loop json_Marshal u tools vs = Inl NilPointerDereference"
proof (induction vs arbitrary: tools)
  case Nil
  then show ?case by simp
next
  case (Cons v vs)
  show ?case
  proof (cases "v = Declarer None")
    case True
    then show ?thesis by (simp add: tool_step_def tool_metadata_def)
  next
    case False
    then show ?thesis using Cons by (simp add: tool_step_catalog_entry)
  qed
qed

text \<open>
  C8, as stated, includes a tool whenever its accessor yields a declaration. A
  declaration with an empty name is yielded and the tool is left out.
\<close>

theorem empty_name_declaration_omitted:
  "toOpenAITools example_Marshal (\<lambda>b. Inl SyntaxError)
     [(''echo'', Declarer (Some \<lparr>FunctionDeclaration.Name = [], Description = ''Echo the input'',
                                 Parameters = GoNil\<rparr>))]
   = Inr []"
  by (simp add: toOpenAITools_def tool_step_def tool_metadata_def)

text \<open>
  C8 (amended). When no accessor returns a nil declaration, the translation
  succeeds and the catalog holds, in the order of the mapping, the entry of each
  tool value that has one. A value has an entry exactly when it has the accessor
  and the declaration has a non-empty name, or it has no accessor, the encoder
  accepts it and the decoder yields a non-empty name from the encoded text. Every
  other value is left out without an error.
\<close>

theorem tool_catalog_inclusion:
  assumes "\<forall>v \<in> snd ` set adkTools. v \<noteq> Declarer None"
  shows "toOpenAITools json_Marshal u adkTools = Inr (List.map_filter (catalog_entry json_Marshal u) (map snd adkTools)) \<and>
         (\<forall>v. catalog_entry json_Marshal u v \<noteq> None \<longleftrightarrow>
                (\<exists>d. v = Declarer (Some d) \<and> FunctionDeclaration.Name d \<noteq> []) \<or>
                (\<exists>x jsonBytes td. v = Other x \<and> json_Marshal x = Inr jsonBytes \<and>
                    u jsonBytes = Inr td \<and> ToolDef.Name td \<noteq> []))"
proof
  show "toOpenAITools json_Marshal u adkTools = Inr (List.map_filter (catalog_entry json_Marshal u) (map snd adkTools))"
    using assms tools_loop_catalog [of "map snd adkTools" json_Marshal u "[]"]
    by (simp add: toOpenAITools_def)
  show "\<forall>v. catalog_entry json_Marshal u v \<noteq> None \<longleftrightarrow>
                (\<exists>d. v = Declarer (Some d) \<and> FunctionDeclaration.Name d \<noteq> []) \<or>
                (\<exists>x jsonBytes td. v = Other x \<and> json_Marshal x = Inr jsonBytes \<and>
                    u jsonBytes = Inr td \<and> ToolDef.Name td \<noteq> [])"
    by (auto simp: catalog_entry_def split: tool_value.splits option.splits sum.splits)
qed

theorem tool_catalog_inclusion_witness:
  "toOpenAITools example_Marshal example_ToolDef_Unmarshal
     [(''search'', Declarer (Some \<lparr>FunctionDeclaration.Name = ''search'',
                                   Description = ''Search the web'', Parameters = GoNil\<rparr>)),
      (''unnamed'', Declarer (Some \<lparr>FunctionDeclaration.Name = [],
                                    Description = ''No name'', Parameters = GoNil\<rparr>)),
      (''lookup'', Other (GoMap (Some [(''name'', GoString ''lookup''),
                                       (''description'', GoString ''Find a file'')]))),
      (''sized'', Other (GoMap (Some [(''size'', GoString ''large'')]))),
      (''channel'', Other (GoOther ''make(chan int)''))]
   = Inr [\<lparr>Tool.Type = ''function'',
           Function = \<lparr>FunctionDefinition.Name = ''search'', Description = ''Search the web'',
                       Parameters = GoNil\<rparr>\<rparr>,
          \<lparr>Tool.Type = ''function'',
           Function = \<lparr>FunctionDefinition.Name = ''lookup'', Description = ''Find a file'',
                       Parameters = GoNil\<rparr>\<rparr>]"
  using tool_catalog_inclusion
    [of "[(''search'', Declarer (Some \<lparr>FunctionDeclaration.Name = ''search'',
                                   Description = ''Search the web'', Parameters = GoNil\<rparr>)),
      (''unnamed'', Declarer (Some \<lparr>FunctionDeclaration.Name = [],
                                    Description = ''No name'', Parameters = GoNil\<rparr>)),
      (''lookup'', Other (GoMap (Some [(''name'', GoString ''lookup''),
                                       (''description'', GoString ''Find a file'')]))),
      (''sized'', Other (GoMap (Some [(''size'', GoString ''large'')]))),
      (''channel'', Other (GoOther ''make(chan int)''))]" example_Marshal
        example_ToolDef_Unmarshal]
  by (simp add: ex_defs catalog_entry_def)

end
